theory Spec2Isabelle
  imports Main "HOL-Library.Word" "HOL-Library.Sublist"
begin

unbundle bit_operations_syntax

section \<open>Errors, output sinks and the collaborators of the pipeline\<close>

text \<open>
  A Go \<open>error\<close> value. \<open>ErrorString\<close> is what \<open>errors.New\<close> builds (and stands for
  any error that only carries a message); \<open>SkipDir\<close> is \<open>filepath.SkipDir\<close>;
  \<open>NilDeref\<close> marks a nil-pointer panic.
\<close>

datatype error = ErrorString string | SkipDir | NilDeref

fun Error :: "error \<Rightarrow> string" where
  "Error (ErrorString s) = s"
| "Error SkipDir = ''skip this directory''"
| "Error NilDeref = ''invalid memory address or nil pointer dereference''"

text \<open>
  An \<open>io.Writer\<close> is a handle; what has been written to each handle is kept in a
  store, so that two fields holding the same writer share their output.
\<close>

type_synonym writer = nat
type_synonym sinks = "writer \<Rightarrow> string"

definition os_Stdout :: writer where "os_Stdout = 1"
definition os_Stderr :: writer where "os_Stderr = 2"

definition Fprint :: "writer \<Rightarrow> string \<Rightarrow> sinks \<Rightarrow> sinks" where
  "Fprint w s out = out(w := out w @ s)"

definition Fprintln :: "writer \<Rightarrow> string \<Rightarrow> sinks \<Rightarrow> sinks" where
  "Fprintln w s out = Fprint w (s @ [CHR 0x0A]) out"

text \<open>\<open>os.FileInfo\<close>, as far as the pipeline reads it.\<close>

record FileInfo =
  Name :: string
  IsDir :: bool

text \<open>
  The directory tree that \<open>filepath.Walk\<close> finds at a path: a non-directory entry, an
  entry whose \<open>Lstat\<close> fails, or a directory with the error of reading its entries
  (if any) and its entries in lexical order.
\<close>

datatype fsnode =
    File string
  | Bad string error
  | Dir string "error option" "fsnode list"

fun nodeName :: "fsnode \<Rightarrow> string" where
  "nodeName (File n) = n"
| "nodeName (Bad n e) = n"
| "nodeName (Dir n r cs) = n"

fun nodeIsDir :: "fsnode \<Rightarrow> bool" where
  "nodeIsDir (Dir n r cs) = True"
| "nodeIsDir _ = False"

fun nodeIsBad :: "fsnode \<Rightarrow> bool" where
  "nodeIsBad (Bad n e) = True"
| "nodeIsBad _ = False"

text \<open>
  The helpers of the package that are not part of the files at hand (\<open>AbsPath\<close>,
  \<open>IsHidden\<close>) and the file system (\<open>os.Stat\<close>, and \<open>os.Lstat\<close> together with the
  tree below the path) are parameters of the model.
\<close>

record env =
  AbsPath :: "string \<Rightarrow> error + string"
  IsHidden :: "string \<Rightarrow> bool"
  Stat :: "string \<Rightarrow> error + FileInfo"
  Lstat :: "string \<Rightarrow> error + fsnode"

section \<open>The pipeline\<close>

type_synonym Op = "32 word"

definition Create :: Op where "Create = 1"
definition Write :: Op where "Write = 2"
definition Remove :: Op where "Remove = 4"
definition Rename :: Op where "Rename = 8"
definition Chmod :: Op where "Chmod = 16"

definition dirOps :: Op where "dirOps = Create OR Rename"

record Event =
  EName :: string
  EOp :: Op

text \<open>
  \<open>TaskInfo\<close> with the fields the pipeline and the Go tasks use. \<open>Buf\<close> is the
  content of the \<open>bytes.Buffer\<close>.
\<close>

record TaskInfo =
  Src :: string
  Target :: string
  Buf :: string
  Tout :: writer
  Terr :: writer
  TVerbose :: bool

text \<open>
  A \<open>Workflower\<close>: its \<open>Match\<close>, and its \<open>Run\<close> as the error it returns and what
  it does to the sinks.
\<close>

record Workflower =
  Match :: "string \<Rightarrow> 32 word \<Rightarrow> bool"
  Run :: "TaskInfo \<Rightarrow> sinks \<Rightarrow> error option \<times> sinks"

text \<open>
  \<open>Pipeline\<close>, without its channels. \<open>watcher\<close> is \<open>None\<close> for the nil
  watcher and otherwise the paths handed to \<open>watcher.Add\<close>, in order; \<open>recDirs\<close> is
  \<open>None\<close> for the nil map.
\<close>

record Pipeline =
  PName :: string
  Watches :: "string list"
  Wout :: writer
  Werr :: writer
  Workflows :: "Workflower list"
  Verbose :: bool
  watcher :: "string list option"
  recDirs :: "(string \<rightharpoonup> bool) option"

definition NewPipeline :: "string \<Rightarrow> bool \<Rightarrow> Pipeline" where
  "NewPipeline name verbose =
     \<lparr>PName = name, Watches = [], Wout = os_Stdout, Werr = os_Stderr,
      Workflows = [], Verbose = verbose, watcher = None, recDirs = None\<rparr>"

text \<open>\<open>Add\<close> appends the workflows to the pipeline, one by one.\<close>

fun Add :: "Pipeline \<Rightarrow> Workflower list \<Rightarrow> Pipeline" where
  "Add p [] = p"
| "Add p (w # ws) = Add (p\<lparr>Workflows := Workflows p @ [w]\<rparr>) ws"

text \<open>The loop of \<open>Watch\<close> that looks for the resolved path among the watches.\<close>

fun watching :: "string list \<Rightarrow> string \<Rightarrow> bool" where
  "watching [] d = False"
| "watching (w # ws) d = (if w = d then True else watching ws d)"

definition watcherAdd :: "string list option \<Rightarrow> string \<Rightarrow> string list option" where
  "watcherAdd wt d = (case wt of None \<Rightarrow> None | Some subs \<Rightarrow> Some (subs @ [d]))"

definition Watch ::
  "env \<Rightarrow> string \<Rightarrow> Pipeline \<times> sinks \<Rightarrow> (error + string) \<times> Pipeline \<times> sinks" where
  "Watch E watchDir st =
     (case st of (p, out) \<Rightarrow>
        (case AbsPath E watchDir of
           Inl err \<Rightarrow>
             (Inl err, p, if Verbose p then Fprintln (Wout p) (Error err) out else out)
         | Inr d \<Rightarrow>
             if watching (Watches p) d then (Inr d, p, out)
             else (Inr d,
                   p\<lparr>Watches := Watches p @ [d], watcher := watcherAdd (watcher p) d\<rparr>,
                   out)))"

section \<open>Paths (path/filepath on Unix)\<close>

text \<open>
  The functions of Go's \<open>path/filepath\<close> that the pipeline calls, for the separator
  \<open>/\<close> and no volume names. \<open>splitSlash\<close> cuts a path at every separator;
  \<open>cleanElems\<close> is the pass of \<open>Clean\<close> over the elements: empty elements and
  \<open>.\<close> are dropped, \<open>..\<close> removes the element before it, is dropped at the root and
  is kept at the front of a relative path.
\<close>

fun splitSlash :: "string \<Rightarrow> string list" where
  "splitSlash [] = [[]]"
| "splitSlash (c # cs) =
     (if c = CHR ''/'' then [] # splitSlash cs
      else (case splitSlash cs of [] \<Rightarrow> [[c]] | x # xs \<Rightarrow> (c # x) # xs))"

definition rooted :: "string \<Rightarrow> bool" where
  "rooted s = (case s of [] \<Rightarrow> False | c # cs \<Rightarrow> c = CHR ''/'')"

fun cleanElems :: "bool \<Rightarrow> string list \<Rightarrow> string list \<Rightarrow> string list" where
  "cleanElems r out [] = out"
| "cleanElems r out (c # cs) =
     (if c = [] \<or> c = ''.'' then cleanElems r out cs
      else if c = ''..'' then
        (if out \<noteq> [] \<and> last out \<noteq> ''..'' then cleanElems r (butlast out) cs
         else if r then cleanElems r out cs
         else cleanElems r (out @ [''..'']) cs)
      else cleanElems r (out @ [c]) cs)"

definition elems :: "string \<Rightarrow> string list" where
  "elems s = cleanElems (rooted s) [] (splitSlash s)"

fun joinWith :: "string \<Rightarrow> string list \<Rightarrow> string" where
  "joinWith sep [] = []"
| "joinWith sep [x] = x"
| "joinWith sep (x # y # ys) = x @ sep @ joinWith sep (y # ys)"

definition Clean :: "string \<Rightarrow> string" where
  "Clean s =
     (if rooted s then ''/'' @ joinWith ''/'' (elems s)
      else if elems s = [] then ''.''
      else joinWith ''/'' (elems s))"

definition Join :: "string \<Rightarrow> string \<Rightarrow> string" where
  "Join a b =
     (if a = [] then (if b = [] then [] else Clean b) else Clean (a @ ''/'' @ b))"

text \<open>
  The error result of \<open>filepath.Rel\<close>, the only part of its result that \<open>recDir\<close>
  reads. \<open>Rel\<close> cleans both paths and fails when exactly one of them is rooted, or
  when, past the leading elements the two have in common, the base goes on with
  \<open>..\<close>.
\<close>

fun dropCommon :: "string list \<Rightarrow> string list \<Rightarrow> string list \<times> string list" where
  "dropCommon (b # bs) (t # ts) = (if b = t then dropCommon bs ts else (b # bs, t # ts))"
| "dropCommon bs ts = (bs, ts)"

definition RelErr :: "string \<Rightarrow> string \<Rightarrow> error option" where
  "RelErr basepath targpath =
     (let failed = Some (ErrorString
            (''Rel: can't make '' @ targpath @ '' relative to '' @ basepath));
          be = elems basepath;
          te = elems targpath
      in if rooted basepath = rooted targpath \<and> be = te then None
         else if rooted basepath \<noteq> rooted targpath then failed
         else (case dropCommon be te of
                 (b # bs, ts) \<Rightarrow> if b = ''..'' then failed else None
               | _ \<Rightarrow> None))"

text \<open>
  True containment of a path under a root, as the specification words it: the elements
  of the cleaned root are a prefix of the elements of the cleaned path.
\<close>

definition pathUnder :: "string \<Rightarrow> string \<Rightarrow> bool" where
  "pathUnder root path = (rooted root = rooted path \<and> prefix (elems root) (elems path))"

section \<open>Recursive watches\<close>

text \<open>
  \<open>filepath.Walk\<close> over the tree found at the root, threading the state that the
  callback changes. The callback is called once per entry: with the entry's info, with
  the error of reading a directory's entries, or with no info and the error of
  \<open>Lstat\<close>. A \<open>SkipDir\<close> from a directory skips that directory; any other error of
  the callback ends the walk.
\<close>

type_synonym 's WalkFunc =
  "string \<Rightarrow> FileInfo option \<Rightarrow> error option \<Rightarrow> 's \<Rightarrow> error option \<times> 's"

fun walk :: "'s WalkFunc \<Rightarrow> string \<Rightarrow> fsnode \<Rightarrow> 's \<Rightarrow> error option \<times> 's"
and walkNames :: "'s WalkFunc \<Rightarrow> string \<Rightarrow> fsnode list \<Rightarrow> 's \<Rightarrow> error option \<times> 's"
where
  "walk fn path (File n) s = fn path (Some \<lparr>Name = n, IsDir = False\<rparr>) None s"
| "walk fn path (Bad n e) s = fn path None (Some e) s"
| "walk fn path (Dir n rerr cs) s =
     (case fn path (Some \<lparr>Name = n, IsDir = True\<rparr>) rerr s of
        (err1, s1) \<Rightarrow>
          if rerr \<noteq> None \<or> err1 \<noteq> None then (err1, s1)
          else walkNames fn path cs s1)"
| "walkNames fn path [] s = (None, s)"
| "walkNames fn path (c # cs) s =
     (case walk fn (Join path (nodeName c)) c s of
        (None, s1) \<Rightarrow> walkNames fn path cs s1
      | (Some er, s1) \<Rightarrow>
          if er = SkipDir \<and> (nodeIsDir c \<or> nodeIsBad c)
          then walkNames fn path cs s1
          else (Some er, s1))"

definition Walk :: "env \<Rightarrow> string \<Rightarrow> 's WalkFunc \<Rightarrow> 's \<Rightarrow> error option \<times> 's" where
  "Walk E root fn s =
     (case (case Lstat E root of
              Inl e \<Rightarrow> fn root None (Some e) s
            | Inr node \<Rightarrow> walk fn root node s) of
        (err, s1) \<Rightarrow> (if err = Some SkipDir then None else err, s1))"

text \<open>
  The callback that \<open>WatchRecursive\<close> hands to the walk. Reading the info of an entry
  that has none is a nil dereference, returned here as an error that ends the walk.
\<close>

definition walkFn :: "env \<Rightarrow> bool \<Rightarrow> (Pipeline \<times> sinks) WalkFunc" where
  "walkFn E ignoreHidden path info err st =
     (if err \<noteq> None then (None, st)
      else (case info of
              None \<Rightarrow> (Some NilDeref, st)
            | Some fi \<Rightarrow>
                if IsDir fi then
                  (if IsHidden E (Name fi) \<and> ignoreHidden then (Some SkipDir, st)
                   else (None, snd (Watch E path st)))
                else (None, st)))"

definition WatchRecursive ::
  "env \<Rightarrow> string \<Rightarrow> bool \<Rightarrow> Pipeline \<times> sinks \<Rightarrow> error option \<times> Pipeline \<times> sinks" where
  "WatchRecursive E watchDir ignoreHidden st =
     (case st of (p, out) \<Rightarrow>
        (case AbsPath E watchDir of
           Inl err \<Rightarrow> (Some err, p, out)
         | Inr d \<Rightarrow>
             (let m = (case recDirs p of None \<Rightarrow> Map.empty | Some m \<Rightarrow> m);
                  p1 = p\<lparr>recDirs := Some (m(d \<mapsto> ignoreHidden))\<rparr>
              in (None, snd (Walk E d (walkFn E ignoreHidden) (p1, out))))))"

text \<open>
  \<open>recDir\<close>. Go leaves the order of a \<open>range\<close> over a map open, so the keys of
  \<open>recDirs\<close> in the order the loop meets them are an argument. \<open>recDirLoop\<close> is the
  loop: it yields the flag of the root for which \<open>WatchRecursive\<close> is called, if any.
\<close>

fun recDirLoop ::
  "(string \<rightharpoonup> bool) \<Rightarrow> bool \<Rightarrow> string \<Rightarrow> string list \<Rightarrow> bool option" where
  "recDirLoop m h name [] = None"
| "recDirLoop m h name (dir # rest) =
     (case m dir of
        None \<Rightarrow> recDirLoop m h name rest
      | Some iHidden \<Rightarrow>
          if h \<and> iHidden then recDirLoop m h name rest
          else if RelErr dir name = None then Some iHidden
          else recDirLoop m h name rest)"

definition recDirCall :: "env \<Rightarrow> string list \<Rightarrow> Event \<Rightarrow> Pipeline \<Rightarrow> (string \<times> bool) option" where
  "recDirCall E keys e p =
     (if dirOps AND EOp e \<noteq> EOp e then None
      else (case Stat E (EName e) of
              Inl err \<Rightarrow> None
            | Inr fi \<Rightarrow>
                if \<not> IsDir fi then None
                else (case recDirLoop (case recDirs p of None \<Rightarrow> Map.empty | Some m \<Rightarrow> m)
                             (IsHidden E (EName e)) (EName e) keys of
                        None \<Rightarrow> None
                      | Some iHidden \<Rightarrow> Some (EName e, iHidden))))"

definition recDir :: "env \<Rightarrow> string list \<Rightarrow> Event \<Rightarrow> Pipeline \<times> sinks \<Rightarrow> Pipeline \<times> sinks" where
  "recDir E keys e st =
     (case recDirCall E keys e (fst st) of
        None \<Rightarrow> st
      | Some (name, iHidden) \<Rightarrow> snd (WatchRecursive E name iHidden st))"

section \<open>The batcher\<close>

text \<open>
  What one \<open>select\<close> of \<open>batchRun\<close> receives: a raw event, a tick, or the stop
  signal. The loop is run over the sequence of what its selects receive; it yields the
  batches sent on \<open>p.events\<close>, in order, and where the loop stands at the end of the
  sequence: still waiting with the events gathered so far, or left.
\<close>

datatype received = FromEvents Event | FromTick | FromDone

datatype batcher = Waiting "Event list" | Exited

fun batchLoop :: "Event list \<Rightarrow> received list \<Rightarrow> Event list list \<times> batcher" where
  "batchLoop evs [] = ([], Waiting evs)"
| "batchLoop evs (FromEvents event # rs) = batchLoop (evs @ [event]) rs"
| "batchLoop evs (FromTick # rs) =
     (if length evs = 0 then batchLoop evs rs
      else (case batchLoop [] rs of (sent, b) \<Rightarrow> (evs # sent, b)))"
| "batchLoop evs (FromDone # rs) = ([], Exited)"

definition batchRun :: "received list \<Rightarrow> Event list list \<times> batcher" where
  "batchRun rs = batchLoop [] rs"

section \<open>Dispatch\<close>

fun digits :: "nat \<Rightarrow> string" where
  "digits n =
     (if n < 10 then [char_of (48 + n)]
      else digits (n div 10) @ [char_of (48 + n mod 10)])"

definition newTaskInfo :: "Pipeline \<Rightarrow> string \<Rightarrow> TaskInfo" where
  "newTaskInfo p fpath =
     \<lparr>Src = fpath, Target = [], Buf = [], Tout = Wout p, Terr = Werr p,
      TVerbose = Verbose p\<rparr>"

text \<open>The loop of \<open>queryWorkflow\<close> over the workflows; the error of \<open>Run\<close> is dropped.\<close>

fun queryLoop :: "Pipeline \<Rightarrow> string \<Rightarrow> 32 word \<Rightarrow> Workflower list \<Rightarrow> sinks \<Rightarrow> sinks" where
  "queryLoop p fpath op [] out = out"
| "queryLoop p fpath op (w # ws) out =
     (if Match w fpath op
      then queryLoop p fpath op ws (snd (Run w (newTaskInfo p fpath) out))
      else queryLoop p fpath op ws out)"

definition queryWorkflow :: "Pipeline \<Rightarrow> string \<Rightarrow> 32 word \<Rightarrow> sinks \<Rightarrow> sinks" where
  "queryWorkflow p fpath op out =
     queryLoop p fpath op (Workflows p)
       (if Verbose p
        then Fprint (Wout p)
               (''Watcher event '' @ fpath @ '' '' @ digits (unat op) @ [CHR 0x0A]) out
        else out)"

text \<open>
  The loop of \<open>Start\<close> over the events of one batch, as far as it dispatches; the
  rescan it starts beside each dispatch is \<open>recDir\<close> above.
\<close>

fun dispatch :: "Pipeline \<Rightarrow> Event list \<Rightarrow> sinks \<Rightarrow> sinks" where
  "dispatch p [] out = out"
| "dispatch p (e # evs) out = dispatch p evs (queryWorkflow p (EName e) (EOp e) out)"

section \<open>The Go tasks\<close>

text \<open>
  What running an external command does: the bytes it writes to its standard output
  and to its standard error, and the error of \<open>cmd.Run\<close>.
\<close>

record cmdResult =
  stdout :: string
  stderr :: string
  err :: "error option"

text \<open>
  The helper \<open>GoRelSrcDir\<close> of the package, \<open>strings.Title\<close> and the commands of
  the machine (\<open>exec.Command\<close> with a name and arguments, run) are parameters.
\<close>

record tenv =
  GoRelSrcDir :: "string \<Rightarrow> string"
  Title :: "string \<Rightarrow> string"
  Command :: "string \<Rightarrow> string list \<Rightarrow> cmdResult"

record goPrjTask =
  gocmd :: string
  args :: "string list"

record goLintTask =
  largs :: "string list"

text \<open>
  \<open>cmd.Run\<close> with \<open>Stdout\<close> set to the buffer of the info and \<open>Stderr\<close> to its
  error sink.
\<close>

definition cmdRun :: "cmdResult \<Rightarrow> TaskInfo \<times> sinks \<Rightarrow> error option \<times> TaskInfo \<times> sinks" where
  "cmdRun r st =
     (case st of (info, out) \<Rightarrow>
        (err r, info\<lparr>Buf := Buf info @ stdout r\<rparr>, Fprint (Terr info) (stderr r) out))"

text \<open>The deferred \<open>info.Buf.WriteTo(info.Tout)\<close>: the buffer is written out and drained.\<close>

definition flushBuf :: "TaskInfo \<times> sinks \<Rightarrow> TaskInfo \<times> sinks" where
  "flushBuf st =
     (case st of (info, out) \<Rightarrow> (info\<lparr>Buf := []\<rparr>, Fprint (Tout info) (Buf info) out))"

definition goPrjTask_Run ::
  "tenv \<Rightarrow> goPrjTask \<Rightarrow> TaskInfo \<times> sinks \<Rightarrow> error option \<times> TaskInfo \<times> sinks" where
  "goPrjTask_Run T gt st =
     (case st of (info0, out0) \<Rightarrow>
        (let info1 = info0\<lparr>Target := Src info0\<rparr>;
             info2 = info1\<lparr>Buf := []\<rparr>;
             dir = GoRelSrcDir T (Src info2);
             out1 = Fprintln (Tout info2)
                      (joinWith '' '' [''Go'', Title T (gocmd gt), ''...'', dir]) out0;
             targs = ([gocmd gt] @ args gt) @ [dir]
         in (case cmdRun (Command T ''go'' targs) (info2, out1) of
               (Some e, st3) \<Rightarrow> (Some e, flushBuf st3)
             | (None, info3, out3) \<Rightarrow>
                 (None, flushBuf (info3, Fprintln (Tout info3) ''ok'' out3)))))"

definition NewGoPrjTask :: "string \<Rightarrow> string list \<Rightarrow> goPrjTask" where
  "NewGoPrjTask c as = \<lparr>gocmd = c, args = as\<rparr>"

definition NewGoTestTask :: "string list \<Rightarrow> goPrjTask" where
  "NewGoTestTask as = \<lparr>gocmd = ''test'', args = as\<rparr>"

text \<open>\<open>%v\<close> of a slice of strings, as \<open>Fprintln\<close> prints \<open>lt.args\<close>.\<close>

definition showStrings :: "string list \<Rightarrow> string" where
  "showStrings xs = ''['' @ joinWith '' '' xs @ '']''"

definition goLintTask_Run ::
  "tenv \<Rightarrow> goLintTask \<Rightarrow> TaskInfo \<times> sinks \<Rightarrow> error option \<times> TaskInfo \<times> sinks" where
  "goLintTask_Run T lt st =
     (case st of (info0, out0) \<Rightarrow>
        (let info1 = info0\<lparr>Target := Src info0\<rparr>;
             info2 = info1\<lparr>Buf := []\<rparr>;
             dir = GoRelSrcDir T (Src info2);
             out1 = Fprintln (Tout info2)
                      (joinWith '' '' [''Go Lint'', showStrings (largs lt), ''...'', dir]) out0;
             targs = largs lt @ [dir]
         in (case cmdRun (Command T ''golint'' targs) (info2, out1) of
               (Some e, st3) \<Rightarrow> (Some e, flushBuf st3)
             | (None, info3, out3) \<Rightarrow>
                 if length (Buf info3) > 0
                 then (Some (ErrorString ''FAIL''), flushBuf (info3, out3))
                 else (None, flushBuf (info3, Fprintln (Tout info3) ''ok'' out3)))))"

definition NewGoLintTask :: "string list \<Rightarrow> goLintTask" where
  "NewGoLintTask as = \<lparr>largs = as\<rparr>"

section \<open>Notions used to state the properties\<close>


text \<open>
  Every directory of a tree, with its path and the chain of directories that leads to
  it from the root of the tree (both included): for each directory of the chain, its
  name and whether its entries can be read.
\<close>

fun dirsBelow :: "string \<Rightarrow> fsnode \<Rightarrow> (string \<times> (string \<times> bool) list) list"
and dirsAmong :: "string \<Rightarrow> fsnode list \<Rightarrow> (string \<times> (string \<times> bool) list) list"
where
  "dirsBelow path (File n) = []"
| "dirsBelow path (Bad n e) = []"
| "dirsBelow path (Dir n rerr cs) =
     (path, [(n, rerr = None)]) #
     map (\<lambda>(q, ch). (q, (n, rerr = None) # ch)) (dirsAmong path cs)"
| "dirsAmong path [] = []"
| "dirsAmong path (c # cs) = dirsBelow (Join path (nodeName c)) c @ dirsAmong path cs"

text \<open>
  A directory survives the walk that ignores hidden directories when no directory of
  its chain is hidden and all of them can be read.
\<close>

definition survives :: "(string \<Rightarrow> bool) \<Rightarrow> (string \<times> bool) list \<Rightarrow> bool" where
  "survives hidden ch = list_all (\<lambda>(n, readable). \<not> hidden n \<and> readable) ch"

definition survivors :: "(string \<Rightarrow> bool) \<Rightarrow> string \<Rightarrow> fsnode \<Rightarrow> string list" where
  "survivors hidden path node =
     map fst (filter (\<lambda>(q, ch). survives hidden ch) (dirsBelow path node))"

definition survivorsAmong :: "(string \<Rightarrow> bool) \<Rightarrow> string \<Rightarrow> fsnode list \<Rightarrow> string list" where
  "survivorsAmong hidden path cs =
     map fst (filter (\<lambda>(q, ch). survives hidden ch) (dirsAmong path cs))"

text \<open>
  The surviving directories of the tree at a resolved root; none when \<open>Lstat\<close> of
  the root fails.
\<close>

definition recursiveTargets :: "env \<Rightarrow> string \<Rightarrow> string list" where
  "recursiveTargets E d =
     (case Lstat E d of Inl e \<Rightarrow> [] | Inr t \<Rightarrow> survivors (IsHidden E) d t)"

text \<open>The root of a recursive watch is itself a hidden directory.\<close>

definition hiddenRoot :: "env \<Rightarrow> string \<Rightarrow> bool" where
  "hiddenRoot E d =
     (case Lstat E d of
        Inl e \<Rightarrow> False
      | Inr t \<Rightarrow> nodeIsDir t \<and> IsHidden E (nodeName t))"

text \<open>\<open>Watch\<close> called on each path of a list in turn, its results dropped.\<close>

definition watchAll :: "env \<Rightarrow> Pipeline \<times> sinks \<Rightarrow> string list \<Rightarrow> Pipeline \<times> sinks" where
  "watchAll E st qs = foldl (\<lambda>acc q. snd (Watch E q acc)) st qs"

subsection \<open>A small world to run the model in\<close>

text \<open>
  A project \<open>proj\<close> under \<open>/go/src\<close> with a hidden \<open>.git/objects\<close>, a file and
  \<open>sub/new\<close>. Relative paths resolve under \<open>/go/src\<close>; a name is hidden when it
  starts with a dot.
\<close>

definition exampleTree :: fsnode where
  "exampleTree =
     Dir ''proj'' None
       [Dir ''.git'' None [Dir ''objects'' None []],
        File ''main.go'',
        Dir ''sub'' None [Dir ''new'' None []]]"

text \<open>A second project, with a directory \<open>private\<close> whose entries cannot be read.\<close>

definition exampleLocked :: fsnode where
  "exampleLocked =
     Dir ''app'' None
       [Dir ''pkg'' None [],
        Dir ''private''
          (Some (ErrorString ''open /go/src/app/private: permission denied'')) []]"

definition exampleEnv :: env where
  "exampleEnv =
     \<lparr>AbsPath = (\<lambda>s. if s = ''missing''
                     then Inl (ErrorString ''stat /go/src/missing: no such file or directory'')
                     else if rooted s then Inr (Clean s) else Inr (Join ''/go/src'' s)),
      IsHidden = (\<lambda>s. case s of [] \<Rightarrow> False | c # cs \<Rightarrow> c = CHR ''.''),
      Stat = (\<lambda>s. if s = ''/go/src/proj/sub/new'' then Inr \<lparr>Name = ''new'', IsDir = True\<rparr>
                  else if s = ''/tmp/other/new'' then Inr \<lparr>Name = ''new'', IsDir = True\<rparr>
                  else Inl (ErrorString ''no such file or directory'')),
      Lstat = (\<lambda>s. if s = ''/go/src/proj'' then Inr exampleTree
                   else if s = ''/go/src/proj/.git''
                   then Inr (Dir ''.git'' None [Dir ''objects'' None []])
                   else if s = ''/go/src/app'' then Inr exampleLocked
                   else Inl (ErrorString ''no such file or directory''))\<rparr>"

text \<open>
  Two workflows for the fan-out of the specification: the first matches only one path
  and its runs fail, the second matches every path. Each run writes the source of its
  info to sink 3, after the number of its workflow.
\<close>

definition exampleWorkflows :: "Workflower list" where
  "exampleWorkflows =
     [\<lparr>Match = (\<lambda>path op. path = ''/go/src/proj/a.go''),
       Run = (\<lambda>info out. (Some (ErrorString ''exit status 1''),
                Fprintln 3 (''1 '' @ Src info) out))\<rparr>,
      \<lparr>Match = (\<lambda>path op. True),
       Run = (\<lambda>info out. (None, Fprintln 3 (''2 '' @ Src info) out))\<rparr>]"

section \<open>Watch\<close>

lemma watching_iff: "watching ws d \<longleftrightarrow> d \<in> set ws"
  by (induction ws) auto

lemma count_list_member_ge1: "d \<in> set ws \<Longrightarrow> 1 \<le> count_list ws d"
  by (induction ws) auto

lemma example_AbsPath_proj: "AbsPath exampleEnv ''proj'' = Inr ''/go/src/proj''"
  by (simp add: exampleEnv_def Join_def Clean_def elems_def rooted_def)

lemma example_AbsPath_abs: "AbsPath exampleEnv ''/go/src/proj'' = Inr ''/go/src/proj''"
  by (simp add: exampleEnv_def Join_def Clean_def elems_def rooted_def)

lemma Watch_keeps_count:
  "d \<in> set (Watches (fst st)) \<Longrightarrow>
   count_list (Watches (fst (snd (Watch E q st)))) d = count_list (Watches (fst st)) d"
  by (cases st; cases "AbsPath E q") (auto simp: Watch_def watching_iff)

lemma Watch_keeps_member:
  "d \<in> set (Watches (fst st)) \<Longrightarrow> d \<in> set (Watches (fst (snd (Watch E q st))))"
  by (cases st; cases "AbsPath E q") (auto simp: Watch_def watching_iff)

lemma watchAll_keeps_count:
  "d \<in> set (Watches (fst st)) \<Longrightarrow>
   d \<in> set (Watches (fst (watchAll E st qs))) \<and>
   count_list (Watches (fst (watchAll E st qs))) d = count_list (Watches (fst st)) d"
proof (induction qs arbitrary: st)
  case Nil
  then show ?case by (simp add: watchAll_def)
next
  case (Cons q qs)
  have step: "watchAll E st (q # qs) = watchAll E (snd (Watch E q st)) qs"
    by (simp add: watchAll_def)
  show ?case
    unfolding step
    using Cons.IH [OF Watch_keeps_member [OF Cons.prems]] Watch_keeps_count [OF Cons.prems]
    by simp
qed

text \<open>
  C2. Watch is idempotent. When two paths resolve to the same directory \<open>d\<close> (and
  \<open>d\<close> is not already listed more than once), then after \<open>Watch\<close> of the first the
  list holds \<open>d\<close> exactly once, and \<open>Watch\<close> of the second returns \<open>d\<close> and leaves
  the pipeline and the sinks as they are; the same holds when any other calls of
  \<open>Watch\<close> come between the two.
\<close>

theorem Watch_idempotent:
  assumes a: "AbsPath E a = Inr d" and b: "AbsPath E b = Inr d"
    and once: "count_list (Watches p) d \<le> 1"
  shows "case Watch E a (p, out) of (r1, st1) \<Rightarrow>
           r1 = Inr d \<and>
           count_list (Watches (fst st1)) d = 1 \<and>
           Watch E b st1 = (Inr d, st1) \<and>
           Watch E b (watchAll E st1 between) = (Inr d, watchAll E st1 between) \<and>
           count_list (Watches (fst (watchAll E st1 between))) d = 1"
proof -
  obtain r1 p1 out1 where first: "Watch E a (p, out) = (r1, p1, out1)"
    by (rule prod_cases3)
  have r1: "r1 = Inr d" and mem: "d \<in> set (Watches p1)"
    using first a by (auto simp: Watch_def watching_iff split: if_splits)
  have one: "count_list (Watches p1) d = 1"
  proof (cases "d \<in> set (Watches p)")
    case True
    then have "count_list (Watches p) d = 1"
      using once count_list_member_ge1 [of d "Watches p"] by simp
    with True first a show ?thesis
      by (simp add: Watch_def watching_iff)
  next
    case False
    then have "count_list (Watches p) d = 0"
      by (simp add: count_list_0_iff)
    with False first a show ?thesis
      by (auto simp: Watch_def watching_iff)
  qed
  have again: "Watch E b st = (Inr d, st)" if "d \<in> set (Watches (fst st))" for st
    using that b by (cases st) (simp add: Watch_def watching_iff)
  have later: "d \<in> set (Watches (fst (watchAll E (p1, out1) between)))"
      "count_list (Watches (fst (watchAll E (p1, out1) between))) d = 1"
    using watchAll_keeps_count [of d "(p1, out1)" E between] mem one by simp_all
  show ?thesis
    unfolding first using r1 one again [of "(p1, out1)"] mem again [OF later(1)] later(2)
    by simp
qed

theorem Watch_idempotent_witness:
  "case Watch exampleEnv ''proj'' (NewPipeline ''demo'' False, \<lambda>w. []) of
     (r1, st1) \<Rightarrow>
       r1 = Inr ''/go/src/proj'' \<and>
       count_list (Watches (fst st1)) ''/go/src/proj'' = 1 \<and>
       Watch exampleEnv ''/go/src/proj'' st1 = (Inr ''/go/src/proj'', st1) \<and>
       Watch exampleEnv ''/go/src/proj''
           (watchAll exampleEnv st1 [''missing'', ''/go/src/proj/sub'']) =
         (Inr ''/go/src/proj'', watchAll exampleEnv st1 [''missing'', ''/go/src/proj/sub'']) \<and>
       count_list
         (Watches (fst (watchAll exampleEnv st1 [''missing'', ''/go/src/proj/sub''])))
         ''/go/src/proj'' = 1"
proof -
  have once: "count_list (Watches (NewPipeline ''demo'' False)) ''/go/src/proj'' \<le> 1"
    by (simp add: NewPipeline_def)
  show ?thesis
    by (rule Watch_idempotent [OF example_AbsPath_proj example_AbsPath_abs once])
qed

text \<open>
  C3. Watch is atomic on failure. When the path does not resolve, \<open>Watch\<close> returns
  the error of the resolution and the pipeline is unchanged: the same watches and the
  same subscriptions. The only effect is the line with the error on the output sink
  of a verbose pipeline.
\<close>

theorem Watch_failure_atomic:
  assumes "AbsPath E w = Inl e"
  shows "case Watch E w (p, out) of (r, p1, out1) \<Rightarrow>
           r = Inl e \<and> p1 = p \<and> Watches p1 = Watches p \<and> watcher p1 = watcher p \<and>
           out1 = (if Verbose p then Fprintln (Wout p) (Error e) out else out)"
  using assms by (simp add: Watch_def)

theorem Watch_failure_atomic_witness:
  "AbsPath exampleEnv ''missing'' =
     Inl (ErrorString ''stat /go/src/missing: no such file or directory'') \<and>
   (case Watch exampleEnv ''missing''
           ((NewPipeline ''demo'' True)\<lparr>Watches := [''/go/src/proj''],
                                         watcher := Some [''/go/src/proj'']\<rparr>, \<lambda>w. []) of
      (r, p1, out1) \<Rightarrow>
        r = Inl (ErrorString ''stat /go/src/missing: no such file or directory'') \<and>
        Watches p1 = [''/go/src/proj''] \<and> watcher p1 = Some [''/go/src/proj''] \<and>
        out1 os_Stdout = ''stat /go/src/missing: no such file or directory'' @ [CHR 0x0A])"
proof -
  have failing: "AbsPath exampleEnv ''missing'' =
      Inl (ErrorString ''stat /go/src/missing: no such file or directory'')"
    by (simp add: exampleEnv_def)
  show ?thesis
    using Watch_failure_atomic [OF failing,
        of "(NewPipeline ''demo'' True)\<lparr>Watches := [''/go/src/proj''],
                                         watcher := Some [''/go/src/proj'']\<rparr>" "\<lambda>w. []"]
      failing
    by (auto simp: NewPipeline_def Fprintln_def Fprint_def split: prod.splits)
qed

section \<open>Recursive watches\<close>

lemma survives_Cons: "survives H ((n, r) # ch) = (\<not> H n \<and> r \<and> survives H ch)"
  by (simp add: survives_def)

lemma survives_Nil: "survives H []"
  by (simp add: survives_def)

lemma survivorsAmong_Nil: "survivorsAmong H path [] = []"
  by (simp add: survivorsAmong_def)

lemma survivorsAmong_Cons:
  "survivorsAmong H path (c # cs) =
     survivors H (Join path (nodeName c)) c @ survivorsAmong H path cs"
  by (simp add: survivorsAmong_def survivors_def)

lemma filter_chain:
  "filter (\<lambda>(q, ch). survives H ch) (map (\<lambda>(q, ch). (q, (n, r) # ch)) xs) =
     (if \<not> H n \<and> r
      then map (\<lambda>(q, ch). (q, (n, r) # ch)) (filter (\<lambda>(q, ch). survives H ch) xs)
      else [])"
  by (induction xs) (auto simp: survives_Cons)

lemma map_fst_chain: "map fst (map (\<lambda>(q, ch). (q, x # ch)) xs) = map fst xs"
  by (induction xs) auto

text \<open>
  The survivors of a directory: none when it is hidden or cannot be read, otherwise
  the directory itself and the survivors among its entries.
\<close>

lemma survivors_Dir:
  "survivors H path (Dir n rerr cs) =
     (if \<not> H n \<and> rerr = None then path # survivorsAmong H path cs else [])"
proof (cases "\<not> H n \<and> rerr = None")
  case True
  then show ?thesis
    unfolding survivors_def survivorsAmong_def
    by (simp add: filter_chain map_fst_chain survives_Cons survives_Nil)
next
  case False
  then show ?thesis
    unfolding survivors_def
    by (auto simp: filter_chain survives_Cons)
qed

lemma survivors_File: "survivors H path (File n) = []"
  by (simp add: survivors_def)

lemma survivors_Bad: "survivors H path (Bad n e) = []"
  by (simp add: survivors_def)

lemma walkFn_err: "walkFn E ih path info (Some e) st = (None, st)"
  by (simp add: walkFn_def)

lemma walkFn_file:
  "walkFn E ih path (Some \<lparr>Name = n, IsDir = False\<rparr>) None st = (None, st)"
  by (simp add: walkFn_def)

lemma walkFn_dir:
  "walkFn E ih path (Some \<lparr>Name = n, IsDir = True\<rparr>) None st =
     (if IsHidden E n \<and> ih then (Some SkipDir, st) else (None, snd (Watch E path st)))"
  by (simp add: walkFn_def)

lemma watchAll_append: "watchAll E st (xs @ ys) = watchAll E (watchAll E st xs) ys"
  by (simp add: watchAll_def)

text \<open>
  The walk over the entries of a directory, given that the walk over each entry calls
  \<open>Watch\<close> on the survivors of the entry and ends with no error or with \<open>SkipDir\<close>
  from a directory.
\<close>

lemma walkNames_walkFn:
  assumes IH: "\<And>c path st. c \<in> set cs \<Longrightarrow>
      \<exists>r. walk (walkFn E True) path c st = (r, watchAll E st (survivors (IsHidden E) path c))
        \<and> (r = None \<or> r = Some SkipDir \<and> nodeIsDir c)"
  shows "walkNames (walkFn E True) path cs st =
           (None, watchAll E st (survivorsAmong (IsHidden E) path cs))"
  using IH
proof (induction cs arbitrary: st)
  case Nil
  show ?case by (simp add: survivorsAmong_Nil watchAll_def)
next
  case (Cons c cs)
  obtain r where r: "walk (walkFn E True) (Join path (nodeName c)) c st =
        (r, watchAll E st (survivors (IsHidden E) (Join path (nodeName c)) c))"
      and rc: "r = None \<or> r = Some SkipDir \<and> nodeIsDir c"
    using Cons.prems [of c "Join path (nodeName c)" st] by auto
  have rest: "walkNames (walkFn E True) path cs st' =
           (None, watchAll E st' (survivorsAmong (IsHidden E) path cs))" for st'
    using Cons.IH [of st'] Cons.prems by simp
  from rc show ?case
  proof
    assume "r = None"
    with r rest show ?thesis
      by (simp add: survivorsAmong_Cons watchAll_append)
  next
    assume "r = Some SkipDir \<and> nodeIsDir c"
    with r rest show ?thesis
      by (simp add: survivorsAmong_Cons watchAll_append)
  qed
qed

lemma walk_walkFn:
  "\<exists>r. walk (walkFn E True) path node st =
          (r, watchAll E st (survivors (IsHidden E) path node))
       \<and> (r = None \<or> r = Some SkipDir \<and> nodeIsDir node)"
proof (induction node arbitrary: path st)
  case (File n)
  show ?case by (simp add: walkFn_file survivors_File watchAll_def)
next
  case (Bad n e)
  show ?case by (simp add: walkFn_err survivors_Bad watchAll_def)
next
  case (Dir n rerr cs)
  have names: "walkNames (walkFn E True) path cs st' =
           (None, watchAll E st' (survivorsAmong (IsHidden E) path cs))" for st'
    by (rule walkNames_walkFn) (use Dir.IH in blast)
  show ?case
  proof (cases "rerr = None \<and> \<not> IsHidden E n")
    case True
    then show ?thesis
      using names [of "snd (Watch E path st)"]
      by (simp add: walkFn_dir survivors_Dir watchAll_def)
  next
    case False
    then show ?thesis
      by (cases rerr) (auto simp: walkFn_dir walkFn_err survivors_Dir watchAll_def)
  qed
qed

lemma Walk_walkFn:
  "snd (Walk E d (walkFn E True) st) = watchAll E st (recursiveTargets E d)"
proof (cases "Lstat E d")
  case (Inl e)
  then show ?thesis
    by (simp add: Walk_def recursiveTargets_def walkFn_err watchAll_def)
next
  case (Inr t)
  obtain r where "walk (walkFn E True) d t st =
      (r, watchAll E st (survivors (IsHidden E) d t))"
    using walk_walkFn [of E d t st] by blast
  with Inr show ?thesis
    by (simp add: Walk_def recursiveTargets_def)
qed

lemma Watch_fixed_Watches:
  "AbsPath E q = Inr q \<Longrightarrow>
   set (Watches (fst (snd (Watch E q st)))) = insert q (set (Watches (fst st)))"
  by (cases st) (auto simp: Watch_def watching_iff)

lemma watchAll_Watches:
  "list_all (\<lambda>q. AbsPath E q = Inr q) qs \<Longrightarrow>
   set (Watches (fst (watchAll E st qs))) = set (Watches (fst st)) \<union> set qs"
proof (induction qs arbitrary: st)
  case Nil
  show ?case by (simp add: watchAll_def)
next
  case (Cons q qs)
  have "watchAll E st (q # qs) = watchAll E (snd (Watch E q st)) qs"
    by (simp add: watchAll_def)
  with Cons show ?case
    by (simp add: Watch_fixed_Watches)
qed

lemma recursiveTargets_root:
  "Lstat E d = Inr (Dir n None cs) \<Longrightarrow> \<not> hiddenRoot E d \<Longrightarrow>
   d \<in> set (recursiveTargets E d)"
  by (simp add: recursiveTargets_def hiddenRoot_def survivors_Dir)

text \<open>
  C4. \<open>WatchRecursive\<close> with \<open>ignoreHidden\<close> set, on a path that resolves to a root
  \<open>d\<close> that is not itself a hidden directory, returns no error, records the root and
  calls \<open>Watch\<close> on exactly the surviving directories of the tree at \<open>d\<close>, in the
  order of the walk: the directories reached from the root through directories that
  are not hidden and whose entries could be read, the root and the directory itself
  included. When each surviving directory resolves to itself, the watches afterwards
  are the watches before together with the surviving directories: the root is among
  them when its entries could be read, and no hidden directory, nor any directory below
  a hidden one, nor any directory at or below one that could not be read, is added.
\<close>

theorem WatchRecursive_ignores_hidden:
  assumes root: "AbsPath E watchDir = Inr d"
    and visible: "\<not> hiddenRoot E d"
    and fixed: "list_all (\<lambda>q. AbsPath E q = Inr q) (recursiveTargets E d)"
  shows "case WatchRecursive E watchDir True (p, out) of (e, p', out') \<Rightarrow>
           e = None \<and>
           (p', out') =
             watchAll E
               (p\<lparr>recDirs := Some ((case recDirs p of None \<Rightarrow> Map.empty | Some m \<Rightarrow> m)
                                     (d \<mapsto> True))\<rparr>, out)
               (recursiveTargets E d) \<and>
           set (Watches p') = set (Watches p) \<union> set (recursiveTargets E d) \<and>
           (\<forall>n cs. Lstat E d = Inr (Dir n None cs) \<longrightarrow> d \<in> set (Watches p'))"
proof -
  let ?p1 = "p\<lparr>recDirs := Some ((case recDirs p of None \<Rightarrow> Map.empty | Some m \<Rightarrow> m)
                                  (d \<mapsto> True))\<rparr>"
  have run: "WatchRecursive E watchDir True (p, out) =
      (None, watchAll E (?p1, out) (recursiveTargets E d))"
    using root by (simp add: WatchRecursive_def Let_def Walk_walkFn)
  have added: "set (Watches (fst (watchAll E (?p1, out) (recursiveTargets E d)))) =
      set (Watches p) \<union> set (recursiveTargets E d)"
    using watchAll_Watches [OF fixed, of "(?p1, out)"] by simp
  have "d \<in> set (Watches (fst (watchAll E (?p1, out) (recursiveTargets E d))))"
    if "Lstat E d = Inr (Dir n None cs)" for n cs
    using recursiveTargets_root [OF that visible] added by simp
  with run added show ?thesis
    by (cases "watchAll E (?p1, out) (recursiveTargets E d)") auto
qed

lemma example_joins:
  "Join ''/go/src/proj'' ''.git'' = ''/go/src/proj/.git''"
  "Join ''/go/src/proj/.git'' ''objects'' = ''/go/src/proj/.git/objects''"
  "Join ''/go/src/proj'' ''main.go'' = ''/go/src/proj/main.go''"
  "Join ''/go/src/proj'' ''sub'' = ''/go/src/proj/sub''"
  "Join ''/go/src/proj/sub'' ''new'' = ''/go/src/proj/sub/new''"
  by (simp_all add: Join_def Clean_def elems_def rooted_def)

lemma example_dirs:
  "map fst (dirsBelow ''/go/src/proj'' exampleTree) =
     [''/go/src/proj'', ''/go/src/proj/.git'', ''/go/src/proj/.git/objects'',
      ''/go/src/proj/sub'', ''/go/src/proj/sub/new'']"
  by (simp add: exampleTree_def example_joins)

lemma example_Lstat: "Lstat exampleEnv ''/go/src/proj'' = Inr exampleTree"
  by (simp add: exampleEnv_def)

lemma example_targets:
  "recursiveTargets exampleEnv ''/go/src/proj'' =
     [''/go/src/proj'', ''/go/src/proj/sub'', ''/go/src/proj/sub/new'']"
  by (simp add: recursiveTargets_def example_Lstat exampleTree_def survivors_def
      survives_def example_joins, simp add: exampleEnv_def)


lemma example_fixed:
  "AbsPath exampleEnv ''/go/src/proj/sub'' = Inr ''/go/src/proj/sub''"
  "AbsPath exampleEnv ''/go/src/proj/sub/new'' = Inr ''/go/src/proj/sub/new''"
  by (simp_all add: exampleEnv_def Clean_def elems_def rooted_def)

theorem WatchRecursive_ignores_hidden_witness:
  "map fst (dirsBelow ''/go/src/proj'' exampleTree) =
     [''/go/src/proj'', ''/go/src/proj/.git'', ''/go/src/proj/.git/objects'',
      ''/go/src/proj/sub'', ''/go/src/proj/sub/new''] \<and>
   (case WatchRecursive exampleEnv ''proj'' True (NewPipeline ''demo'' False, \<lambda>w. []) of
      (e, p', out') \<Rightarrow>
        e = None \<and>
        set (Watches p') =
          {''/go/src/proj'', ''/go/src/proj/sub'', ''/go/src/proj/sub/new''})"
proof -
  have fixed: "list_all (\<lambda>q. AbsPath exampleEnv q = Inr q)
      (recursiveTargets exampleEnv ''/go/src/proj'')"
    unfolding example_targets
    by (simp add: example_AbsPath_abs example_fixed)
  have visible: "\<not> hiddenRoot exampleEnv ''/go/src/proj''"
    by (simp add: hiddenRoot_def example_Lstat exampleTree_def exampleEnv_def)
  have empty: "Watches (NewPipeline ''demo'' False) = []"
    by (simp add: NewPipeline_def)
  obtain e p' out' where run:
    "WatchRecursive exampleEnv ''proj'' True (NewPipeline ''demo'' False, \<lambda>w. []) =
       (e, p', out')"
    by (rule prod_cases3)
  have "e = None \<and>
      set (Watches p') =
        set (Watches (NewPipeline ''demo'' False)) \<union>
        set (recursiveTargets exampleEnv ''/go/src/proj'')"
    using WatchRecursive_ignores_hidden [OF example_AbsPath_proj visible fixed,
        of "NewPipeline ''demo'' False" "\<lambda>w. []"]
    unfolding run by simp
  then have "e = None \<and>
      set (Watches p') = {''/go/src/proj'', ''/go/src/proj/sub'', ''/go/src/proj/sub/new''}"
    unfolding example_targets empty by simp
  then show ?thesis
    unfolding run using example_dirs by simp
qed

text \<open>
  Not every directory below the root that is not hidden is added: a directory whose
  entries cannot be read reaches the callback with the error only, and the callback
  returns without watching it. Here \<open>private\<close> is such a directory.
\<close>

lemma example_joins_app:
  "Join ''/go/src/app'' ''pkg'' = ''/go/src/app/pkg''"
  "Join ''/go/src/app'' ''private'' = ''/go/src/app/private''"
  by (simp_all add: Join_def Clean_def elems_def rooted_def)

lemma example_AbsPath_app:
  "AbsPath exampleEnv ''/go/src/app'' = Inr ''/go/src/app''"
  "AbsPath exampleEnv ''/go/src/app/pkg'' = Inr ''/go/src/app/pkg''"
  by (simp_all add: exampleEnv_def Clean_def elems_def rooted_def)

lemma example_Lstat_app: "Lstat exampleEnv ''/go/src/app'' = Inr exampleLocked"
  by (simp add: exampleEnv_def)

lemma example_not_hidden:
  "\<not> IsHidden exampleEnv ''app''" "\<not> IsHidden exampleEnv ''pkg''"
  "\<not> IsHidden exampleEnv ''private''" "\<not> IsHidden exampleEnv ''proj''"
  by (simp_all add: exampleEnv_def)

lemma example_dirs_app:
  "map fst (dirsBelow ''/go/src/app'' exampleLocked) =
     [''/go/src/app'', ''/go/src/app/pkg'', ''/go/src/app/private'']"
  by (simp add: exampleLocked_def example_joins_app)

lemma example_walk_app:
  "walk (walkFn exampleEnv True) ''/go/src/app'' exampleLocked st =
     (None, snd (Watch exampleEnv ''/go/src/app/pkg'' (snd (Watch exampleEnv ''/go/src/app'' st))))"
  by (simp add: exampleLocked_def example_joins_app walkFn_dir walkFn_err example_not_hidden)

theorem WatchRecursive_unreadable_counterexample:
  "map fst (dirsBelow ''/go/src/app'' exampleLocked) =
     [''/go/src/app'', ''/go/src/app/pkg'', ''/go/src/app/private''] \<and>
   \<not> IsHidden exampleEnv ''app'' \<and> \<not> IsHidden exampleEnv ''private'' \<and>
   AbsPath exampleEnv ''/go/src/app'' = Inr ''/go/src/app'' \<and>
   Lstat exampleEnv ''/go/src/app'' = Inr exampleLocked \<and>
   fst (WatchRecursive exampleEnv ''/go/src/app'' True
          (NewPipeline ''demo'' False, \<lambda>w. [])) = None \<and>
   Watches (fst (snd (WatchRecursive exampleEnv ''/go/src/app'' True
          (NewPipeline ''demo'' False, \<lambda>w. [])))) = [''/go/src/app'', ''/go/src/app/pkg'']"
  by (simp add: example_dirs_app example_not_hidden example_AbsPath_app example_Lstat_app
      WatchRecursive_def Walk_def example_walk_app Watch_def NewPipeline_def Let_def
      watcherAdd_def)

text \<open>
  On a root that is itself hidden the callback skips the root with its whole tree:
  \<open>WatchRecursive\<close> on \<open>/go/src/proj/.git\<close> returns no error and adds no watch.
\<close>

lemma example_AbsPath_git:
  "AbsPath exampleEnv ''/go/src/proj/.git'' = Inr ''/go/src/proj/.git''"
  by (simp add: exampleEnv_def Clean_def elems_def rooted_def)

lemma example_Lstat_git:
  "Lstat exampleEnv ''/go/src/proj/.git'' = Inr (Dir ''.git'' None [Dir ''objects'' None []])"
  by (simp add: exampleEnv_def)

lemma example_hidden_git: "IsHidden exampleEnv ''.git''"
  by (simp add: exampleEnv_def)

lemma WatchRecursive_hidden_root:
  "AbsPath exampleEnv ''/go/src/proj/.git'' = Inr ''/go/src/proj/.git'' \<and>
   Lstat exampleEnv ''/go/src/proj/.git'' = Inr (Dir ''.git'' None [Dir ''objects'' None []]) \<and>
   fst (WatchRecursive exampleEnv ''/go/src/proj/.git'' True
          (NewPipeline ''demo'' False, \<lambda>w. [])) = None \<and>
   Watches (fst (snd (WatchRecursive exampleEnv ''/go/src/proj/.git'' True
          (NewPipeline ''demo'' False, \<lambda>w. [])))) = []"
  by (simp add: example_AbsPath_git example_Lstat_git example_hidden_git
      WatchRecursive_def Walk_def walkFn_dir NewPipeline_def Let_def)

section \<open>Rescan\<close>

lemma cleanElems_rooted_no_dotdot:
  "''..'' \<notin> set out \<Longrightarrow> ''..'' \<notin> set (cleanElems True out cs)"
proof (induction cs arbitrary: out)
  case Nil
  then show ?case by simp
next
  case (Cons c cs)
  have "''..'' \<notin> set (butlast out)"
    using Cons.prems by (meson in_set_butlastD)
  with Cons show ?case by simp
qed

lemma elems_rooted_no_dotdot: "rooted s \<Longrightarrow> ''..'' \<notin> set (elems s)"
  by (simp add: elems_def cleanElems_rooted_no_dotdot)

lemma dropCommon_hd: "dropCommon be te = (b # bs, ts) \<Longrightarrow> b \<in> set be"
  by (induction be te rule: dropCommon.induct) (auto split: if_splits)

text \<open>Between two rooted paths \<open>filepath.Rel\<close> never fails, contained or not.\<close>

lemma RelErr_rooted: "rooted base \<Longrightarrow> rooted targ \<Longrightarrow> RelErr base targ = None"
proof -
  assume b: "rooted base" and t: "rooted targ"
  have "b' \<noteq> ''..''" if "dropCommon (elems base) (elems targ) = (b' # bs, ts)" for b' bs ts
    using dropCommon_hd [OF that] elems_rooted_no_dotdot [OF b] by auto
  then show ?thesis
    using b t by (auto simp: RelErr_def Let_def split: prod.splits list.splits)
qed

text \<open>
  C1. \<open>recDir\<close> on the creation of the directory \<open>/tmp/other/new\<close>, with
  \<open>/go/src/proj\<close> as the only recursive root (hidden directories included): the event
  path is not under the root, and \<open>recDir\<close> calls \<open>WatchRecursive\<close> on it all the
  same, because \<open>filepath.Rel\<close> returns no error for it.
\<close>

theorem recDir_rescans_outside_root:
  "recDirCall exampleEnv [''/go/src/proj'']
     \<lparr>EName = ''/tmp/other/new'', EOp = Create\<rparr>
     ((NewPipeline ''demo'' False)\<lparr>Watches := [''/go/src/proj'', ''/tmp/other''],
          recDirs := Some [''/go/src/proj'' \<mapsto> False]\<rparr>) =
     Some (''/tmp/other/new'', False) \<and>
   \<not> pathUnder ''/go/src/proj'' ''/tmp/other/new''"
  by (simp add: recDirCall_def exampleEnv_def dirOps_def Create_def Rename_def
      NewPipeline_def RelErr_def pathUnder_def elems_def rooted_def Let_def)

section \<open>The batcher\<close>

lemma batchLoop_ticks: "batchLoop [] (replicate n FromTick @ rs) = batchLoop [] rs"
  by (induction n) auto



lemma batchLoop_stop:
  "batchLoop evs (rs @ FromDone # rs') = (fst (batchLoop evs rs), Exited)"
  by (induction evs rs rule: batchLoop.induct) (auto split: prod.splits)

text \<open>
  C5. At a tick the batcher sends nothing when it has gathered no event, and keeps
  waiting with nothing gathered; when it has gathered events it sends them as one
  batch and goes on with nothing gathered. Any number of ticks with no raw event
  sends no batch.
\<close>

theorem batch_tick:
  "batchLoop [] (FromTick # rs) = batchLoop [] rs \<and>
   batchLoop (e # evs) (FromTick # rs) =
     (case batchLoop [] rs of (sent, b) \<Rightarrow> ((e # evs) # sent, b)) \<and>
   batchRun (replicate n FromTick) = ([], Waiting [])"
  using batchLoop_ticks [of n "[]"] by (simp add: batchRun_def)


text \<open>
  C7. When the batcher receives the stop signal its loop is left: the batches sent are
  those sent before the signal, whatever is received afterwards, and the events
  gathered in the window that was open are not sent.
\<close>

theorem batch_stop:
  "batchRun (rs @ FromDone # rs') = (fst (batchRun rs), Exited) \<and>
   batchLoop evs (FromDone # rs') = ([], Exited)"
  by (simp add: batchRun_def batchLoop_stop)

section \<open>Dispatch\<close>

lemma queryLoop_foldl:
  "queryLoop p fpath op ws out =
     foldl (\<lambda>acc w. snd (Run w (newTaskInfo p fpath) acc)) out
       (filter (\<lambda>w. Match w fpath op) ws)"
  by (induction ws arbitrary: out) auto

lemma dispatch_foldl:
  "dispatch p evs out = foldl (\<lambda>acc e. queryWorkflow p (EName e) (EOp e) acc) out evs"
  by (induction evs arbitrary: out) auto

text \<open>
  C8. For an event, \<open>queryWorkflow\<close> runs exactly the registered workflows that match
  its path and operation, each once, in registration order, each on a new
  \<open>TaskInfo\<close> with the path of the event as source and the sinks and verbosity of
  the pipeline; the error of a run is dropped, so the next workflow runs on whatever
  the run left. The events of a batch are dispatched one after the other in order.
\<close>

theorem dispatch_runs_matching:
  "queryWorkflow p fpath op out =
     foldl (\<lambda>acc w. snd (Run w \<lparr>Src = fpath, Target = [], Buf = [], Tout = Wout p,
                                Terr = Werr p, TVerbose = Verbose p\<rparr> acc))
       (if Verbose p
        then Fprint (Wout p)
               (''Watcher event '' @ fpath @ '' '' @ digits (unat op) @ [CHR 0x0A]) out
        else out)
       (filter (\<lambda>w. Match w fpath op) (Workflows p)) \<and>
   dispatch p evs out = foldl (\<lambda>acc e. queryWorkflow p (EName e) (EOp e) acc) out evs"
  by (simp add: queryWorkflow_def queryLoop_foldl dispatch_foldl newTaskInfo_def)

text \<open>The fan-out of the specification, on the example workflows.\<close>

lemma dispatch_fanout_example:
  "dispatch (Add (NewPipeline ''demo'' False) exampleWorkflows)
     [\<lparr>EName = ''/go/src/proj/a.go'', EOp = Write\<rparr>,
      \<lparr>EName = ''/go/src/proj/b.go'', EOp = Write\<rparr>] (\<lambda>w. []) 3 =
   ''1 /go/src/proj/a.go'' @ [CHR 0x0A] @ ''2 /go/src/proj/a.go'' @ [CHR 0x0A] @
   ''2 /go/src/proj/b.go'' @ [CHR 0x0A]"
  by (simp add: exampleWorkflows_def NewPipeline_def queryWorkflow_def newTaskInfo_def
      Fprintln_def Fprint_def)

section \<open>The Go tasks\<close>

text \<open>
  C9. \<open>goPrjTask.Run\<close> returns the error of the command. It leaves the info with the
  target set to the source and an empty buffer. On the output sink it writes the
  running line, then \<open>ok\<close> when the command succeeded, then what the command wrote to
  its standard output (and nothing of what the buffer held before), also when the
  command failed.
\<close>

theorem goPrjTask_Run_contract:
  "case goPrjTask_Run T gt (info, out) of (e, info', out') \<Rightarrow>
     (let dir = GoRelSrcDir T (Src info);
          r = Command T ''go'' (gocmd gt # args gt @ [dir]);
          line = ''Go '' @ Title T (gocmd gt) @ '' ... '' @ dir @ [CHR 0x0A]
      in e = err r \<and>
         info' = info\<lparr>Target := Src info, Buf := []\<rparr> \<and>
         out' = Fprint (Tout info) (stdout r)
                  ((case err r of None \<Rightarrow> Fprintln (Tout info) ''ok'' | Some x \<Rightarrow> id)
                     (Fprint (Terr info) (stderr r) (Fprint (Tout info) line out))) \<and>
         out' (Tout info) =
           out (Tout info) @ line @ (if Terr info = Tout info then stderr r else []) @
           (case err r of None \<Rightarrow> ''ok'' @ [CHR 0x0A] | Some x \<Rightarrow> []) @ stdout r)"
  by (cases "err (Command T ''go'' (gocmd gt # args gt @ [GoRelSrcDir T (Src info)]))")
     (simp_all add: goPrjTask_Run_def cmdRun_def flushBuf_def Fprintln_def Fprint_def Let_def)

text \<open>
  C10. \<open>goLintTask.Run\<close> returns the error of the command when it fails, the error
  \<open>FAIL\<close> when the command succeeds and wrote anything to its standard output, and no
  error otherwise; it writes \<open>ok\<close> to the output sink exactly when it returns no
  error, that is when the command succeeded and wrote nothing.
\<close>

theorem goLintTask_Run_outcome:
  "case goLintTask_Run T lt (info, out) of (e, info', out') \<Rightarrow>
     (let dir = GoRelSrcDir T (Src info);
          r = Command T ''golint'' (largs lt @ [dir]);
          line = ''Go Lint '' @ showStrings (largs lt) @ '' ... '' @ dir @ [CHR 0x0A];
          ok = (err r = None \<and> stdout r = [])
      in e = (case err r of Some x \<Rightarrow> Some x
              | None \<Rightarrow> if stdout r = [] then None else Some (ErrorString ''FAIL'')) \<and>
         (e = None) = ok \<and>
         info' = info\<lparr>Target := Src info, Buf := []\<rparr> \<and>
         out' = Fprint (Tout info) (stdout r)
                  ((if ok then Fprintln (Tout info) ''ok'' else id)
                     (Fprint (Terr info) (stderr r) (Fprint (Tout info) line out))))"
  by (cases "err (Command T ''golint'' (largs lt @ [GoRelSrcDir T (Src info)]))")
     (simp_all add: goLintTask_Run_def cmdRun_def flushBuf_def Fprintln_def Fprint_def Let_def)

end
